theory Spec2Isabelle
  imports Complex_Main
begin

section \<open>The FQGAN triple tokenizer: vector quantizer and model construction\<close>

text \<open>
  A shallow embedding of \<^verbatim>\<open>tokenizer/vq_model_triple.py\<close>: the class
  \<^verbatim>\<open>VectorQuantizer\<close> (construction, \<^verbatim>\<open>forward\<close>,
  \<^verbatim>\<open>get_codebook_entry\<close>), \<^verbatim>\<open>compute_entropy_loss\<close>,
  \<^verbatim>\<open>VQModel.compute_disentangle_loss\<close> and the stage-count checks of
  \<^verbatim>\<open>Encoder.__init__\<close> and \<^verbatim>\<open>VQModel.__init__\<close>.

  Modelling decisions.
  \<^item> A contiguous tensor is its shape and its row-major data (\<open>tensor\<close>);
    \<^verbatim>\<open>view\<close>, \<^verbatim>\<open>reshape\<close> and the two axis permutations are
    functions on that data.
  \<^item> Tensor entries are real numbers: arithmetic is exact. Rounding, overflow and
    NaN propagation of IEEE floating point are outside the model; the one NaN the
    code produces without any rounding, the mean of an empty tensor, is the value
    \<open>NaN\<close> of \<open>scalar\<close>.
  \<^item> Only values are modelled, not gradients: \<^verbatim>\<open>detach()\<close> and
    \<^verbatim>\<open>clone()\<close> are the identity, and what autograd allows or records is
    outside the model.
  \<^item> Every exception of the source is an \<open>error\<close> returned in \<open>Inl\<close>.
  \<^item> The module state that \<^verbatim>\<open>forward\<close> reads and writes (the embedding
    weights and the buffer \<^verbatim>\<open>codebook_used\<close>) is the record \<open>vq\<close>;
    \<^verbatim>\<open>forward\<close> returns the new state next to its result.
\<close>

subsection \<open>Errors, tensors, scalars\<close>

datatype error =
    RuntimeError          \<comment> \<open>torch: shape or size mismatch\<close>
  | IndexError            \<comment> \<open>index out of range; reduction over an empty dimension\<close>
  | ZeroDivisionError
  | ValueError
  | UnboundLocalError
  | AttributeError
  | NotImplementedError

record 'a tensor =
  shape :: "nat list"
  data :: "'a list"

definition numel :: "nat list \<Rightarrow> nat" where
  "numel s = prod_list s"


datatype scalar = NaN | Val real

text \<open>\<^verbatim>\<open>torch.mean\<close> of all entries; the mean of an empty tensor is NaN.\<close>

definition mean_t :: "real list \<Rightarrow> scalar" where
  "mean_t xs = (if xs = [] then NaN else Val (sum_list xs / real (length xs)))"

definition scale :: "real \<Rightarrow> scalar \<Rightarrow> scalar" where
  "scale k s = (case s of NaN \<Rightarrow> NaN | Val v \<Rightarrow> Val (k * v))"

subsection \<open>Construction of the model: the stage count\<close>



text \<open>The configuration, \<^verbatim>\<open>ModelArgs\<close> (lines 14--31).\<close>

record ModelArgs =
  codebook_size :: nat
  codebook_embed_dim :: nat
  codebook_l2_norm :: bool
  codebook_show_usage :: bool
  commit_loss_beta :: real
  entropy_loss_ratio :: real
  encoder_ch_mult :: "int list"
  decoder_ch_mult :: "int list"
  z_channels :: nat
  dropout_p :: real
  with_clip_supervision :: bool
  with_disentanglement :: bool
  disentanglement_ratio :: real


subsection \<open>The vector quantizer: state and construction\<close>

text \<open>
  The module state of \<^verbatim>\<open>VectorQuantizer\<close>. \<open>weight\<close> is
  \<^verbatim>\<open>embedding.weight\<close>, the codebook, as its list of rows. The buffer
  \<^verbatim>\<open>codebook_used\<close> is registered only when \<^verbatim>\<open>show_usage\<close> is
  set; it holds code indices (stored by the source in a float tensor), here
  natural numbers.
\<close>

record vq =
  n_e :: nat
  e_dim :: nat
  beta :: real
  entropy_loss_ratio :: real
  l2_norm :: bool
  show_usage :: bool
  weight :: "real list list"
  codebook_used :: "nat list option"

definition codebook_used_size :: nat where
  "codebook_used_size = 65536"

text \<open>
  \<^verbatim>\<open>F.normalize(x, p=2, dim=-1)\<close> on one vector of the last axis: the vector
  divided by \<^verbatim>\<open>max(norm, eps)\<close>, with the default \<^verbatim>\<open>eps = 1e-12\<close>.
\<close>

definition sumsq :: "real list \<Rightarrow> real" where
  "sumsq v = sum_list (map (\<lambda>x. x\<^sup>2) v)"

definition l2 :: "real list \<Rightarrow> real" where
  "l2 v = sqrt (sumsq v)"

definition eps :: real where
  "eps = 1 / 10 ^ 12"

definition F_normalize :: "real list \<Rightarrow> real list" where
  "F_normalize v = map (\<lambda>x. x / max (l2 v) eps) v"

text \<open>
  \<^verbatim>\<open>VectorQuantizer.__init__\<close>, lines 469--483. The draw of
  \<^verbatim>\<open>uniform_(-1/n_e, 1/n_e)\<close> is the parameter \<open>u\<close>: \<open>u i k\<close> is the
  value drawn for entry \<open>k\<close> of row \<open>i\<close>; the model accepts any draw, inside
  the interval or not. The bound \<^verbatim>\<open>1.0 / self.n_e\<close> is a division of Python
  numbers and raises for an empty codebook.
\<close>

definition VectorQuantizer_init ::
  "nat \<Rightarrow> nat \<Rightarrow> real \<Rightarrow> real \<Rightarrow> bool \<Rightarrow> bool \<Rightarrow> (nat \<Rightarrow> nat \<Rightarrow> real) \<Rightarrow> error + vq" where
  "VectorQuantizer_init n d b r l2n su u =
     (if n = 0 then Inl ZeroDivisionError
      else
        let w = map (\<lambda>i. map (\<lambda>k. u i k) [0..<d]) [0..<n];
            w' = (if l2n then map F_normalize w else w)
        in Inr \<lparr> n_e = n, e_dim = d, beta = b, entropy_loss_ratio = r,
                 l2_norm = l2n, show_usage = su, weight = w',
                 codebook_used = (if su then Some (replicate codebook_used_size 0) else None) \<rparr>)"

subsection \<open>Layout: permutations and views\<close>

text \<open>
  \<^verbatim>\<open>rearrange(x, 'b c h w -> (b h w) c')\<close>: one row per position, in the order
  batch, height, width; the row holds the position's channel vector.
\<close>

definition bhw_rows :: "nat \<Rightarrow> nat \<Rightarrow> nat \<Rightarrow> nat \<Rightarrow> 'a list \<Rightarrow> 'a list list" where
  "bhw_rows B C H W xs =
     concat (map (\<lambda>b. concat (map (\<lambda>h. map (\<lambda>w.
       map (\<lambda>c. xs ! (((b * C + c) * H + h) * W + w)) [0..<C])
     [0..<W]) [0..<H])) [0..<B])"

text \<open>\<^verbatim>\<open>torch.einsum('b c h w -> b h w c', z).contiguous()\<close>: the data of the result.\<close>

definition bchw_to_bhwc :: "nat \<Rightarrow> nat \<Rightarrow> nat \<Rightarrow> nat \<Rightarrow> 'a list \<Rightarrow> 'a list" where
  "bchw_to_bhwc B C H W xs = concat (bhw_rows B C H W xs)"

text \<open>
  \<^verbatim>\<open>torch.einsum('b h w c -> b c h w', z_q)\<close> and \<^verbatim>\<open>permute(0, 3, 1, 2)\<close>
  of a tensor of shape \<open>(B, H, W, C)\<close>: the data of the result in row-major order.
\<close>

definition bhwc_to_bchw :: "nat \<Rightarrow> nat \<Rightarrow> nat \<Rightarrow> nat \<Rightarrow> 'a list \<Rightarrow> 'a list" where
  "bhwc_to_bchw B H W C xs =
     concat (map (\<lambda>b. concat (map (\<lambda>c. concat (map (\<lambda>h.
       map (\<lambda>w. xs ! (((b * H + h) * W + w) * C + c)) [0..<W])
     [0..<H])) [0..<C])) [0..<B])"

text \<open>
  The rows of a flat tensor seen as a matrix with \<open>n\<close> columns, and
  \<^verbatim>\<open>x.view(-1, n)\<close>, which fails when \<open>n\<close> is zero or does not divide the
  number of entries.
\<close>

definition rows_of :: "nat \<Rightarrow> 'a list \<Rightarrow> 'a list list" where
  "rows_of n xs = map (\<lambda>p. take n (drop (p * n) xs)) [0..<length xs div n]"

definition view_rows :: "nat \<Rightarrow> 'a list \<Rightarrow> error + 'a list list" where
  "view_rows n xs =
     (if n = 0 \<or> length xs mod n \<noteq> 0 then Inl RuntimeError else Inr (rows_of n xs))"

subsection \<open>Distances and the arg-min\<close>

text \<open>
  Lines 498--500: entry \<open>(p, j)\<close> of \<open>d\<close> is
  \<^verbatim>\<open>sum(z_p ** 2) + sum(e_j ** 2) - 2 * (z_p . e_j)\<close>.
\<close>

definition dot :: "real list \<Rightarrow> real list \<Rightarrow> real" where
  "dot a b = sum_list (map2 (*) a b)"

definition distances :: "real list list \<Rightarrow> real list list \<Rightarrow> real list list" where
  "distances z_flattened embedding =
     map (\<lambda>z. map (\<lambda>e. sumsq z + sumsq e - 2 * dot z e) embedding) z_flattened"

text \<open>
  \<^verbatim>\<open>torch.argmin(d, dim=1)\<close>: a scan of each row that keeps the first minimum;
  it raises when the reduced dimension is empty. \<open>argmin_from m i k xs\<close> scans
  \<open>xs\<close>, whose first entry has index \<open>k\<close>, with \<open>m\<close> at index \<open>i\<close> the
  least entry so far.
\<close>

fun argmin_from :: "real \<Rightarrow> nat \<Rightarrow> nat \<Rightarrow> real list \<Rightarrow> nat" where
  "argmin_from m i k [] = i"
| "argmin_from m i k (x # xs) =
     (if x < m then argmin_from x k (Suc k) xs else argmin_from m i (Suc k) xs)"

definition argmin_row :: "real list \<Rightarrow> nat" where
  "argmin_row xs = (case xs of [] \<Rightarrow> 0 | x # xs' \<Rightarrow> argmin_from x 0 1 xs')"

definition argmin_dim1 :: "nat \<Rightarrow> real list list \<Rightarrow> error + nat list" where
  "argmin_dim1 n d = (if n = 0 then Inl IndexError else Inr (map argmin_row d))"

text \<open>The codebook as \<^verbatim>\<open>forward\<close> and \<^verbatim>\<open>get_codebook_entry\<close> read it.\<close>

definition embedding_read :: "vq \<Rightarrow> real list list" where
  "embedding_read q = (if l2_norm q then map F_normalize (weight q) else weight q)"

subsection \<open>The usage buffer\<close>

text \<open>
  Python slices with a negated bound: \<^verbatim>\<open>x[:-n]\<close> stops, and \<^verbatim>\<open>x[-n:]\<close>
  starts, at \<open>neg_index (len x) n\<close>: at \<open>0\<close> when \<open>n\<close> is \<open>0\<close> (since
  \<^verbatim>\<open>-0\<close> is \<^verbatim>\<open>0\<close>), and else at \<open>len x - n\<close> clamped at \<open>0\<close>.
\<close>

definition neg_index :: "nat \<Rightarrow> nat \<Rightarrow> nat" where
  "neg_index L n = (if n = 0 then 0 else L - n)"

text \<open>
  \<^verbatim>\<open>x[lo:hi] = src\<close> on a one-dimensional tensor: the source must have the
  slice's length, or length one (it is then broadcast); anything else is a size
  mismatch.
\<close>

definition assign_slice :: "nat \<Rightarrow> nat \<Rightarrow> 'a list \<Rightarrow> 'a list \<Rightarrow> error + 'a list" where
  "assign_slice lo hi xs src =
     (if length src = hi - lo then Inr (take lo xs @ src @ drop hi xs)
      else if length src = 1 then Inr (take lo xs @ replicate (hi - lo) (hd src) @ drop hi xs)
      else Inl RuntimeError)"

text \<open>
  Lines 512--515:
  \<^verbatim>\<open>
    cur_len = min_encoding_indices.shape[0]
    self.codebook_used[:-cur_len] = self.codebook_used[cur_len:].clone()
    self.codebook_used[-cur_len:] = min_encoding_indices
    codebook_usage = len(torch.unique(self.codebook_used)) / self.n_e
  \<close>
  The result is the new buffer and the usage. Whenever one of the two assignments
  raises, the buffer has not been changed by the other.
\<close>

definition update_usage :: "vq \<Rightarrow> nat list \<Rightarrow> error + (nat list \<times> real)" where
  "update_usage q idx =
     (case codebook_used q of
        None \<Rightarrow> Inl AttributeError
      | Some used \<Rightarrow>
          let cur_len = length idx; L = length used in
          (case assign_slice 0 (neg_index L cur_len) used (drop cur_len used) of
             Inl e \<Rightarrow> Inl e
           | Inr used1 \<Rightarrow>
               (case assign_slice (neg_index L cur_len) L used1 idx of
                  Inl e \<Rightarrow> Inl e
                | Inr used2 \<Rightarrow>
                    if n_e q = 0 then Inl ZeroDivisionError
                    else Inr (used2, real (card (set used2)) / real (n_e q)))))"

text \<open>
  Lines 509--515: the usage is \<open>0\<close> and the buffer is not touched unless
  \<^verbatim>\<open>self.show_usage and self.training\<close>.
\<close>

definition usage_step :: "vq \<Rightarrow> bool \<Rightarrow> nat list \<Rightarrow> error + (nat list option \<times> real)" where
  "usage_step q training idx =
     (if show_usage q \<and> training then
        (case update_usage q idx of
           Inl e \<Rightarrow> Inl e
         | Inr (used, usage) \<Rightarrow> Inr (Some used, usage))
      else Inr (codebook_used q, 0))"

subsection \<open>Losses\<close>

definition softmax :: "real list \<Rightarrow> real list" where
  "softmax xs = map (\<lambda>x. exp x / sum_list (map exp xs)) xs"

definition log_softmax :: "real list \<Rightarrow> real list" where
  "log_softmax xs = map (\<lambda>x. x - ln (sum_list (map exp xs))) xs"

text \<open>
  \<^verbatim>\<open>compute_entropy_loss\<close>, lines 668--681, on an affinity matrix with \<open>n\<close>
  columns given by its rows. With no row, the means over the rows are NaN and so
  is the loss.
\<close>

definition compute_entropy_loss :: "nat \<Rightarrow> real list list \<Rightarrow> string \<Rightarrow> real \<Rightarrow> error + scalar" where
  "compute_entropy_loss n affinity loss_type temperature =
     (let flat_affinity = map (map (\<lambda>x. x / temperature)) affinity;
          probs = map softmax flat_affinity;
          log_probs = map (\<lambda>r. log_softmax (map (\<lambda>x. x + 1 / 10 ^ 5) r)) flat_affinity
      in
        if loss_type = ''softmax'' then
          (let target_probs = probs in
           if target_probs = [] then Inr NaN
           else
             let avg_probs = map (\<lambda>j. sum_list (map (\<lambda>r. r ! j) target_probs)
                                       / real (length target_probs)) [0..<n];
                 avg_entropy = - sum_list (map (\<lambda>a. a * ln (a + 1 / 10 ^ 5)) avg_probs);
                 sample_entropy =
                   - (sum_list (map2 (\<lambda>t l. sum_list (map2 (*) t l)) target_probs log_probs)
                      / real (length target_probs))
             in Inr (Val (sample_entropy - avg_entropy)))
        else Inl ValueError)"

text \<open>
  Lines 506--508 and 518--521. \<open>zd\<close> and \<open>zq\<close> are the data of \<^verbatim>\<open>z\<close> and of the
  gathered \<^verbatim>\<open>z_q\<close>, \<open>d\<close> the distances. The three losses are
  \<^verbatim>\<open>None\<close> unless the module is training.
\<close>

definition loss_step ::
  "vq \<Rightarrow> bool \<Rightarrow> real list \<Rightarrow> real list \<Rightarrow> real list list
     \<Rightarrow> error + (scalar option \<times> scalar option \<times> scalar option)" where
  "loss_step q training zd zq d =
     (if training then
        (case compute_entropy_loss (length (embedding_read q)) (map (map uminus) d)
                ''softmax'' (1 / 100) of
           Inl e \<Rightarrow> Inl e
         | Inr ent \<Rightarrow>
             Inr (Some (mean_t (map2 (\<lambda>a b. (a - b)\<^sup>2) zq zd)),
                  Some (scale (beta q) (mean_t (map2 (\<lambda>a b. (a - b)\<^sup>2) zq zd))),
                  Some (scale (entropy_loss_ratio q) ent)))
      else Inr (None, None, None))"

subsection \<open>The forward pass\<close>

text \<open>
  Lines 487--503 of \<^verbatim>\<open>VectorQuantizer.forward\<close>: the permutation to channels
  last, the view as rows of \<^verbatim>\<open>e_dim\<close> entries, the optional normalisation of
  \<^verbatim>\<open>z\<close> (along its last axis), of the rows and of the codebook, the distances,
  the arg-min and the gathered rows seen with the shape of \<^verbatim>\<open>z\<close>. The result is
  the data of \<^verbatim>\<open>z\<close>, the distances, the indices and the data of \<^verbatim>\<open>z_q\<close>.
\<close>

definition nearest ::
  "vq \<Rightarrow> real tensor \<Rightarrow> error + (real list \<times> real list list \<times> nat list \<times> real list)" where
  "nearest q z =
     (if length (shape z) \<noteq> 4 then Inl RuntimeError
      else
        let B = shape z ! 0; C = shape z ! 1; H = shape z ! 2; W = shape z ! 3;
            z1 = bchw_to_bhwc B C H W (data z)
        in
          (case view_rows (e_dim q) z1 of
             Inl e \<Rightarrow> Inl e
           | Inr z_flattened0 \<Rightarrow>
               let zd = (if l2_norm q then concat (map F_normalize (rows_of C z1)) else z1);
                   z_flattened = (if l2_norm q then map F_normalize z_flattened0 else z_flattened0);
                   embedding = embedding_read q;
                   d = distances z_flattened embedding
               in
                 (case argmin_dim1 (length embedding) d of
                    Inl e \<Rightarrow> Inl e
                  | Inr min_encoding_indices \<Rightarrow>
                      let zq = concat (map (\<lambda>i. embedding ! i) min_encoding_indices) in
                      if length zq \<noteq> length zd then Inl RuntimeError
                      else Inr (zd, d, min_encoding_indices, zq))))"

record vq_out =
  z_q :: "real tensor"
  vq_loss :: "scalar option"
  commit_loss :: "scalar option"
  entropy_loss :: "scalar option"
  codebook_usage :: real
  perplexity :: "unit option"
  min_encodings :: "unit option"
  min_encoding_indices :: "nat list"

text \<open>
  \<^verbatim>\<open>VectorQuantizer.forward\<close>, lines 485--529. \<open>training\<close> is
  \<^verbatim>\<open>self.training\<close>. Line 524, \<^verbatim>\<open>z_q = z + (z_q - z).detach()\<close>, is the
  entrywise \<open>z + (z_q - z)\<close>; line 527 permutes back to channels first. The second
  component of the result is the module state after the call.
\<close>

definition forward :: "vq \<Rightarrow> bool \<Rightarrow> real tensor \<Rightarrow> error + (vq_out \<times> vq)" where
  "forward q training z =
     (case nearest q z of
        Inl e \<Rightarrow> Inl e
      | Inr (zd, d, idx, zq) \<Rightarrow>
          (case usage_step q training idx of
             Inl e \<Rightarrow> Inl e
           | Inr (used, usage) \<Rightarrow>
               (case loss_step q training zd zq d of
                  Inl e \<Rightarrow> Inl e
                | Inr (l_vq, l_commit, l_entropy) \<Rightarrow>
                    let zq' = map2 (\<lambda>a b. a + (b - a)) zd zq;
                        out = bhwc_to_bchw (shape z ! 0) (shape z ! 2) (shape z ! 3) (shape z ! 1) zq'
                    in Inr (\<lparr> z_q = \<lparr> shape = [shape z ! 0, shape z ! 1, shape z ! 2, shape z ! 3],
                                       data = out \<rparr>,
                              vq_loss = l_vq, commit_loss = l_commit, entropy_loss = l_entropy,
                              codebook_usage = usage, perplexity = None, min_encodings = None,
                              min_encoding_indices = idx \<rparr>,
                            q \<lparr> codebook_used := used \<rparr>))))"

subsection \<open>Lookup by index\<close>

text \<open>
  \<^verbatim>\<open>embedding[indices]\<close>: indexing a tensor with an integer tensor. An index
  \<open>i\<close> with \<open>-n \<le> i < n\<close> selects row \<open>i\<close>, counted from the end when \<open>i\<close>
  is negative; any other index raises.
\<close>

definition index_rows :: "'a list \<Rightarrow> int list \<Rightarrow> error + 'a list" where
  "index_rows rows idx =
     (let n = int (length rows) in
      if \<forall>i \<in> set idx. - n \<le> i \<and> i < n
      then Inr (map (\<lambda>i. rows ! nat (if i < 0 then i + n else i)) idx)
      else Inl IndexError)"

text \<open>
  \<^verbatim>\<open>VectorQuantizer.get_codebook_entry\<close>, lines 531--546. \<open>shp\<close> is the
  optional \<^verbatim>\<open>shape\<close>; reading \<^verbatim>\<open>shape[3]\<close> of a shorter one raises.
\<close>

definition get_codebook_entry ::
  "vq \<Rightarrow> int tensor \<Rightarrow> nat list option \<Rightarrow> bool \<Rightarrow> error + real tensor" where
  "get_codebook_entry q indices shp channel_first =
     (let embedding = embedding_read q in
      case index_rows embedding (data indices) of
        Inl e \<Rightarrow> Inl e
      | Inr rows \<Rightarrow>
          (case shp of
             None \<Rightarrow> Inr \<lparr> shape = shape indices @ [e_dim q], data = concat rows \<rparr>
           | Some s \<Rightarrow>
               if channel_first then
                 (if length s < 4 then Inl IndexError
                  else if s ! 0 * s ! 2 * s ! 3 * s ! 1 \<noteq> length (concat rows) then Inl RuntimeError
                  else Inr \<lparr> shape = [s ! 0, s ! 1, s ! 2, s ! 3],
                             data = bhwc_to_bchw (s ! 0) (s ! 2) (s ! 3) (s ! 1) (concat rows) \<rparr>)
               else
                 (if numel s \<noteq> length (concat rows) then Inl RuntimeError
                  else Inr \<lparr> shape = s, data = concat rows \<rparr>)))"

subsection \<open>The disentanglement loss\<close>




subsection \<open>Construction of the model\<close>







subsection \<open>Notions used to state the properties\<close>



text \<open>
  The representation invariant of the codebook: \<^verbatim>\<open>embedding.weight\<close> is an
  \<^verbatim>\<open>n_e\<close> by \<^verbatim>\<open>e_dim\<close> matrix.
\<close>

definition wf_vq :: "vq \<Rightarrow> bool" where
  "wf_vq q = (length (weight q) = n_e q \<and> (\<forall>r \<in> set (weight q). length r = e_dim q))"

text \<open>
  The invariant of the usage buffer: it exists, has its fixed size and holds
  codes of the codebook only.
\<close>

definition usage_inv :: "vq \<Rightarrow> bool" where
  "usage_inv q =
     (\<exists>used. codebook_used q = Some used \<and> length used = codebook_used_size \<and>
             (\<forall>i \<in> set used. i < n_e q))"

text \<open>
  The states a quantizer reaches from \<open>q0\<close> by calls of \<^verbatim>\<open>forward\<close> that
  return, in training or evaluation mode. A call that raises leaves the state as
  it was.
\<close>

inductive reachable :: "vq \<Rightarrow> vq \<Rightarrow> bool" for q0 :: vq where
  start: "reachable q0 q0"
| step: "reachable q0 q \<Longrightarrow> forward q training z = Inr (out, q') \<Longrightarrow> reachable q0 q'"

subsection \<open>A small quantizer and input\<close>

text \<open>
  A codebook of two one-dimensional codes, \<open>0\<close> and \<open>1\<close>, without
  normalisation and with usage tracking, and a feature map of one channel and
  two positions. The properties below are instantiated at them.
\<close>

definition ex_q :: vq where
  "ex_q = \<lparr> n_e = 2, e_dim = 1, beta = 1 / 4, entropy_loss_ratio = 0, l2_norm = False,
            show_usage = True, weight = [[0], [1]],
            codebook_used = Some (replicate codebook_used_size 0) \<rparr>"

definition ex_z :: "real tensor" where
  "ex_z = \<lparr> shape = [1, 1, 1, 2], data = [3 / 4, 1 / 4] \<rparr>"




section \<open>Stage count (C9)\<close>






section \<open>Lists, layout and the arg-min\<close>

lemma length_concat_map_upt:
  "(\<And>i. i < n \<Longrightarrow> length (f i) = m) \<Longrightarrow> length (concat (map f [0..<n])) = n * m"
  by (induction n) simp_all



lemma take_drop_concat:
  "(\<And>r. r \<in> set xss \<Longrightarrow> length r = n) \<Longrightarrow> p < length xss
     \<Longrightarrow> take n (drop (p * n) (concat xss)) = xss ! p"
proof (induction xss arbitrary: p)
  case Nil
  then show ?case by simp
next
  case (Cons xs xss)
  then show ?case by (cases p) simp_all
qed

lemma length_concat_const:
  "(\<And>r. r \<in> set xss \<Longrightarrow> length r = n) \<Longrightarrow> length (concat xss) = length xss * n"
  by (induction xss) simp_all

lemma rows_of_concat:
  assumes "\<And>r. r \<in> set xss \<Longrightarrow> length r = n" and "0 < n"
  shows "rows_of n (concat xss) = xss"
proof (rule nth_equalityI)
  show "length (rows_of n (concat xss)) = length xss"
    using assms by (simp add: rows_of_def length_concat_const)
next
  fix p assume "p < length (rows_of n (concat xss))"
  then have p: "p < length xss"
    using assms by (simp add: rows_of_def length_concat_const)
  then show "rows_of n (concat xss) ! p = xss ! p"
    using assms by (simp add: rows_of_def length_concat_const take_drop_concat)
qed

lemma argmin_from_correct:
  assumes "xs = drop k ys" "i < k" "k \<le> length ys" "ys ! i = m"
    "\<forall>j<k. m \<le> ys ! j" "\<forall>j<i. m < ys ! j"
  shows "argmin_from m i k xs < length ys \<and>
         (\<forall>j<length ys. ys ! argmin_from m i k xs \<le> ys ! j) \<and>
         (\<forall>j<argmin_from m i k xs. ys ! argmin_from m i k xs < ys ! j)"
  using assms
proof (induction xs arbitrary: k i m)
  case Nil
  then have "k = length ys" by simp
  with Nil show ?case by auto
next
  case (Cons x xs)
  from Cons.prems(1) have k: "k < length ys"
    by (metis drop_all list.distinct(1) not_le)
  then have "ys ! k # drop (Suc k) ys = x # xs"
    using Cons.prems(1) by (simp add: Cons_nth_drop_Suc)
  then have x: "x = ys ! k" and xs: "xs = drop (Suc k) ys" by simp_all
  show ?case
  proof (cases "x < m")
    case True
    have a: "\<forall>j<Suc k. x \<le> ys ! j"
      using Cons.prems(5) True x by (auto simp: less_Suc_eq)
    have b: "\<forall>j<k. x < ys ! j"
      using Cons.prems(5) True by fastforce
    from Cons.IH [OF xs _ _ _ a b] k x True show ?thesis by simp
  next
    case False
    have a: "\<forall>j<Suc k. m \<le> ys ! j"
      using Cons.prems(5) False x by (auto simp: less_Suc_eq)
    from Cons.IH [OF xs _ _ Cons.prems(4) a Cons.prems(6)] Cons.prems(2) k False
    show ?thesis by simp
  qed
qed

lemma argmin_row_correct:
  assumes "ys \<noteq> []"
  shows "argmin_row ys < length ys \<and>
         (\<forall>j<length ys. ys ! argmin_row ys \<le> ys ! j) \<and>
         (\<forall>j<argmin_row ys. ys ! argmin_row ys < ys ! j)"
proof -
  from assms obtain y ys' where ys: "ys = y # ys'" by (cases ys) auto
  have "argmin_from y 0 1 ys' < length ys \<and>
         (\<forall>j<length ys. ys ! argmin_from y 0 1 ys' \<le> ys ! j) \<and>
         (\<forall>j<argmin_from y 0 1 ys'. ys ! argmin_from y 0 1 ys' < ys ! j)"
    by (rule argmin_from_correct) (simp_all add: ys)
  then show ?thesis by (simp add: argmin_row_def ys)
qed

lemma length_F_normalize [simp]: "length (F_normalize v) = length v"
  by (simp add: F_normalize_def)

lemma length_bhw_rows [simp]: "length (bhw_rows B C H W xs) = B * H * W"
proof -
  have "length (bhw_rows B C H W xs) = B * (H * W)"
    unfolding bhw_rows_def
    by (rule length_concat_map_upt) (simp add: length_concat_map_upt)
  then show ?thesis by (simp add: mult.assoc)
qed


lemma bhw_rows_length_row: "r \<in> set (bhw_rows B C H W xs) \<Longrightarrow> length r = C"
  by (auto simp: bhw_rows_def)

lemma length_bchw_to_bhwc [simp]: "length (bchw_to_bhwc B C H W xs) = B * H * W * C"
  by (simp add: bchw_to_bhwc_def length_concat_const [where n = C] bhw_rows_length_row)

lemma length_bhwc_to_bchw [simp]: "length (bhwc_to_bchw B H W C xs) = B * C * H * W"
proof -
  have "length (bhwc_to_bchw B H W C xs) = B * (C * (H * W))"
    unfolding bhwc_to_bchw_def
    by (rule length_concat_map_upt, rule length_concat_map_upt, rule length_concat_map_upt) simp
  then show ?thesis by (simp add: mult.assoc)
qed




lemma ste_value:
  "length zd = length zq \<Longrightarrow> map2 (\<lambda>a b. a + (b - a)) zd (zq::real list) = zq"
  by (induction zd zq rule: list_induct2) simp_all

section \<open>The structure of a forward pass\<close>

lemma forward_Inr:
  assumes "forward q training z = Inr (out, q')"
  shows "\<exists>zd d idx zq used usage l_vq l_commit l_entropy.
    nearest q z = Inr (zd, d, idx, zq) \<and>
    usage_step q training idx = Inr (used, usage) \<and>
    loss_step q training zd zq d = Inr (l_vq, l_commit, l_entropy) \<and>
    out = \<lparr> z_q = \<lparr> shape = [shape z ! 0, shape z ! 1, shape z ! 2, shape z ! 3],
                      data = bhwc_to_bchw (shape z ! 0) (shape z ! 2) (shape z ! 3) (shape z ! 1)
                               (map2 (\<lambda>a b. a + (b - a)) zd zq) \<rparr>,
             vq_loss = l_vq, commit_loss = l_commit, entropy_loss = l_entropy,
             codebook_usage = usage, perplexity = None, min_encodings = None,
             min_encoding_indices = idx \<rparr> \<and>
    q' = q \<lparr> codebook_used := used \<rparr>"
  using assms by (auto simp: forward_def Let_def split: sum.splits prod.splits)

lemma nearest_Inr:
  assumes "nearest q z = Inr (zd, d, idx, zq)"
  defines "z1 \<equiv> bchw_to_bhwc (shape z ! 0) (shape z ! 1) (shape z ! 2) (shape z ! 3) (data z)"
  shows "length (shape z) = 4" "0 < e_dim q" "length z1 mod e_dim q = 0"
    "zd = (if l2_norm q then concat (map F_normalize (rows_of (shape z ! 1) z1)) else z1)"
    "d = distances (if l2_norm q then map F_normalize (rows_of (e_dim q) z1) else rows_of (e_dim q) z1)
                   (embedding_read q)"
    "0 < length (embedding_read q)"
    "idx = map argmin_row d"
    "zq = concat (map (\<lambda>i. embedding_read q ! i) idx)"
    "length zq = length zd"
  using assms
  by (auto simp: nearest_def Let_def view_rows_def argmin_dim1_def split: sum.splits if_splits)

lemma loss_step_eval: "loss_step q False zd zq d = Inr (None, None, None)"
  by (simp add: loss_step_def)

lemma usage_step_eval: "usage_step q False idx = Inr (codebook_used q, 0)"
  by (simp add: usage_step_def)

lemma loss_step_total: "\<exists>l. loss_step q training zd zq d = Inr l"
  by (simp add: loss_step_def compute_entropy_loss_def Let_def)

lemma forward_eval:
  assumes "nearest q z = Inr (zd, d, idx, zq)"
  shows "forward q False z =
     Inr (\<lparr> z_q = \<lparr> shape = [shape z ! 0, shape z ! 1, shape z ! 2, shape z ! 3],
                      data = bhwc_to_bchw (shape z ! 0) (shape z ! 2) (shape z ! 3) (shape z ! 1)
                               (map2 (\<lambda>a b. a + (b - a)) zd zq) \<rparr>,
             vq_loss = None, commit_loss = None, entropy_loss = None,
             codebook_usage = 0, perplexity = None, min_encodings = None,
             min_encoding_indices = idx \<rparr>, q)"
  using assms by (simp add: forward_def loss_step_eval usage_step_eval)


lemma forward_eval_frame:
  assumes fw: "forward q False z = Inr (out, q')"
  shows "q' = q \<and> vq_loss out = None \<and> commit_loss out = None \<and> entropy_loss out = None \<and>
         codebook_usage out = 0"
proof -
  from fw obtain zd d idx zq where "nearest q z = Inr (zd, d, idx, zq)"
    using forward_Inr by blast
  from forward_eval [OF this] fw show ?thesis by auto
qed

lemma forward_train_eval:
  assumes fw: "forward q True z = Inr (out_t, q_t)"
  shows "\<exists>out. forward q False z = Inr (out, q) \<and> z_q out = z_q out_t \<and>
               min_encoding_indices out = min_encoding_indices out_t"
proof -
  from forward_Inr [OF fw] obtain zd d idx zq used usage l_vq l_commit l_entropy where
    n: "nearest q z = Inr (zd, d, idx, zq)" and
    o: "out_t = \<lparr> z_q = \<lparr> shape = [shape z ! 0, shape z ! 1, shape z ! 2, shape z ! 3],
                    data = bhwc_to_bchw (shape z ! 0) (shape z ! 2) (shape z ! 3) (shape z ! 1)
                             (map2 (\<lambda>a b. a + (b - a)) zd zq) \<rparr>,
           vq_loss = l_vq, commit_loss = l_commit, entropy_loss = l_entropy,
           codebook_usage = usage, perplexity = None, min_encodings = None,
           min_encoding_indices = idx \<rparr>"
    by blast
  from forward_eval [OF n] o show ?thesis by simp
qed

section \<open>Normalisation and distances\<close>

lemma sumsq_nonneg: "0 \<le> sumsq v"
  by (induction v) (simp_all add: sumsq_def)


lemma l2_squared: "(l2 v)\<^sup>2 = sumsq v"
  by (simp add: l2_def sumsq_nonneg)


lemma sumsq_scaled: "sumsq (map (\<lambda>x. x / m) v) = sumsq v / m\<^sup>2"
  by (induction v) (simp_all add: sumsq_def power_divide add_divide_distrib)

lemma sumsq_F_normalize: "sumsq (F_normalize v) = sumsq v / (max (l2 v) eps)\<^sup>2"
  by (simp add: F_normalize_def sumsq_scaled)




lemma F_normalize_zero:
  assumes "l2 v = 0"
  shows "l2 (F_normalize v) = 0"
proof -
  have "sumsq v = 0" using l2_squared [of v] assms by simp
  then have "sumsq (F_normalize v) = 0" by (simp add: sumsq_F_normalize)
  then show ?thesis by (simp add: l2_def)
qed



lemma length_embedding_read [simp]: "length (embedding_read q) = length (weight q)"
  by (simp add: embedding_read_def)

lemma embedding_read_row_length:
  "wf_vq q \<Longrightarrow> j < n_e q \<Longrightarrow> length (embedding_read q ! j) = e_dim q"
  by (simp add: embedding_read_def wf_vq_def)


lemma distances_nth:
  "p < length zf \<Longrightarrow> j < length E \<Longrightarrow>
   distances zf E ! p ! j = sumsq (zf ! p) + sumsq (E ! j) - 2 * dot (zf ! p) (E ! j)"
  by (simp add: distances_def)

lemma length_distances [simp]: "length (distances zf E) = length zf"
  by (simp add: distances_def)

lemma length_distances_row: "p < length zf \<Longrightarrow> length (distances zf E ! p) = length E"
  by (simp add: distances_def)



lemma embedding_read_Nil [simp]: "embedding_read q = [] \<longleftrightarrow> weight q = []"
  by (simp add: embedding_read_def)


lemma nearest_index:
  assumes n: "nearest q z = Inr (zd, d, idx, zq)"
  shows "\<forall>i \<in> set idx. i < length (weight q)"
proof -
  note f = nearest_Inr [OF n]
  have "argmin_row r < length (weight q)" if "r \<in> set d" for r
  proof -
    from that f(5) have "length r = length (weight q)" by (auto simp: distances_def)
    with f(6) have "r \<noteq> []" by auto
    from argmin_row_correct [OF this] \<open>length r = length (weight q)\<close> show ?thesis by simp
  qed
  with f(7) show ?thesis by auto
qed



section \<open>Totality and the usage buffer\<close>

lemma length_zd:
  "length (if l2n then concat (map F_normalize (rows_of C (bchw_to_bhwc B C H W xs)))
           else bchw_to_bhwc B C H W xs) = B * H * W * C"
proof (cases "C = 0")
  case True
  have "length (bchw_to_bhwc B 0 H W xs) = 0" by simp
  then have "bchw_to_bhwc B 0 H W xs = []" by (simp only: length_0_conv)
  with True show ?thesis by (simp add: rows_of_def)
next
  case False
  then have "rows_of C (bchw_to_bhwc B C H W xs) = bhw_rows B C H W xs"
    unfolding bchw_to_bhwc_def by (intro rows_of_concat) (simp_all add: bhw_rows_length_row)
  moreover have "length (concat (map F_normalize (bhw_rows B C H W xs))) = B * H * W * C"
    by (subst length_concat_const [where n = C]) (auto simp: bhw_rows_length_row)
  ultimately show ?thesis by simp
qed

lemma nearest_total:
  assumes wf: "wf_vq q" and ne: "0 < n_e q" and ed: "0 < e_dim q"
    and shp: "shape z = [B, e_dim q, H, W]"
  shows "\<exists>zd d idx zq. nearest q z = Inr (zd, d, idx, zq) \<and> length idx = B * H * W"
proof -
  let ?C = "e_dim q"
  let ?E = "embedding_read q"
  let ?z1 = "bchw_to_bhwc B ?C H W (data z)"
  let ?zf = "if l2_norm q then map F_normalize (rows_of ?C ?z1) else rows_of ?C ?z1"
  let ?zd = "if l2_norm q then concat (map F_normalize (rows_of ?C ?z1)) else ?z1"
  let ?d = "distances ?zf ?E"
  let ?idx = "map argmin_row ?d"
  let ?zq = "concat (map (\<lambda>i. ?E ! i) ?idx)"
  have lE: "length ?E = n_e q" using wf by (simp add: wf_vq_def)
  have rows: "rows_of ?C ?z1 = bhw_rows B ?C H W (data z)"
    unfolding bchw_to_bhwc_def using ed
    by (intro rows_of_concat) (simp_all add: bhw_rows_length_row)
  have lidx: "length ?idx = B * H * W" by (simp add: rows)
  have in_range: "i < n_e q" if "i \<in> set ?idx" for i
  proof -
    from that obtain r where r: "r \<in> set ?d" and i: "i = argmin_row r" by auto
    from r have "length r = n_e q" using lE by (auto simp: distances_def)
    with ne have "r \<noteq> []" by auto
    from argmin_row_correct [OF this] \<open>length r = n_e q\<close> i show ?thesis by simp
  qed
  have "length ?zq = length (map (\<lambda>i. ?E ! i) ?idx) * ?C"
    by (rule length_concat_const) (use in_range wf in \<open>auto simp: embedding_read_row_length\<close>)
  then have lzq: "length ?zq = B * H * W * ?C" using lidx by simp
  have lzd: "length ?zd = B * H * W * ?C" by (rule length_zd)
  have wne: "weight q \<noteq> []" using wf ne by (auto simp: wf_vq_def)
  have "nearest q z = Inr (?zd, ?d, ?idx, ?zq)"
    unfolding nearest_def using ed wne lzq lzd
    by (simp add: shp view_rows_def argmin_dim1_def Let_def)
  with lidx show ?thesis by blast
qed

lemma update_usage_ok:
  assumes "codebook_used q = Some used" and "0 < length idx" and "length idx \<le> length used"
    and "0 < n_e q"
  shows "update_usage q idx =
           Inr (drop (length idx) used @ idx,
                real (card (set (drop (length idx) used @ idx))) / real (n_e q))"
  using assms by (simp add: update_usage_def assign_slice_def neg_index_def Let_def)

lemma update_usage_too_long:
  assumes "codebook_used q = Some used" and "length used < length idx" and "1 < length idx"
  shows "update_usage q idx = Inl RuntimeError"
  using assms by (simp add: update_usage_def assign_slice_def neg_index_def Let_def)

lemma update_usage_empty:
  assumes "codebook_used q = Some used" and "1 < length used"
  shows "update_usage q [] = Inl RuntimeError"
  using assms by (cases used) (simp_all add: update_usage_def assign_slice_def neg_index_def Let_def)

lemma update_usage_Inr:
  assumes u: "codebook_used q = Some used" and L: "length used = codebook_used_size"
    and ok: "update_usage q idx = Inr (used', usage)"
  shows "0 < length idx \<and> length idx \<le> codebook_used_size \<and> 0 < n_e q \<and>
         used' = drop (length idx) used @ idx \<and>
         usage = real (card (set used')) / real (n_e q)"
proof -
  have L1: "1 < length used" by (simp add: L codebook_used_size_def)
  have a: "0 < length idx"
    using update_usage_empty [OF u L1] ok by (cases idx) auto
  have b: "length idx \<le> length used"
  proof (rule ccontr)
    assume "\<not> length idx \<le> length used"
    then have "length used < length idx" "1 < length idx" using L1 by simp_all
    from update_usage_too_long [OF u this] ok show False by simp
  qed
  have c: "0 < n_e q"
    using ok u a b by (auto simp: update_usage_def assign_slice_def neg_index_def Let_def split: if_splits)
  from update_usage_ok [OF u a b c] ok a b c L show ?thesis by simp
qed


lemma forward_total:
  assumes wf: "wf_vq q" and ne: "0 < n_e q" and ed: "0 < e_dim q"
    and shp: "shape z = [B, e_dim q, H, W]"
    and us: "training \<and> show_usage q \<longrightarrow>
             usage_inv q \<and> 0 < B * H * W \<and> B * H * W \<le> codebook_used_size"
  shows "\<exists>out q'. forward q training z = Inr (out, q') \<and>
                  length (min_encoding_indices out) = B * H * W"
proof -
  from nearest_total [OF wf ne ed shp] obtain zd d idx zq where
    n: "nearest q z = Inr (zd, d, idx, zq)" and l: "length idx = B * H * W" by blast
  obtain ls where ls: "loss_step q training zd zq d = Inr ls"
    using loss_step_total by blast
  have "\<exists>u. usage_step q training idx = Inr u"
  proof (cases "training \<and> show_usage q")
    case True
    with us obtain used where u: "codebook_used q = Some used"
      and lu: "length used = codebook_used_size" and b: "0 < B * H * W" "B * H * W \<le> codebook_used_size"
      by (auto simp: usage_inv_def)
    from update_usage_ok [OF u, of idx] l lu b ne True show ?thesis
      by (simp add: usage_step_def)
  next
    case False
    then show ?thesis by (auto simp: usage_step_def)
  qed
  then obtain u where u: "usage_step q training idx = Inr u" by blast
  show ?thesis using n ls u l
    by (cases ls; cases u) (simp add: forward_def)
qed

lemma forward_frame:
  assumes "forward q training z = Inr (out, q')"
  shows "n_e q' = n_e q \<and> e_dim q' = e_dim q \<and> beta q' = beta q \<and>
         vq.entropy_loss_ratio q' = vq.entropy_loss_ratio q \<and> l2_norm q' = l2_norm q \<and>
         show_usage q' = show_usage q \<and> weight q' = weight q"
  using forward_Inr [OF assms] by auto

lemma forward_wf: "wf_vq q \<Longrightarrow> forward q training z = Inr (out, q') \<Longrightarrow> wf_vq q'"
  using forward_frame [of q training z out q'] by (simp add: wf_vq_def)

lemma forward_buffer:
  assumes fw: "forward q training z = Inr (out, q')"
  shows "(show_usage q \<and> training \<longrightarrow>
            (\<exists>used usage. update_usage q (min_encoding_indices out) = Inr (used, usage) \<and>
               codebook_used q' = Some used \<and> codebook_usage out = usage)) \<and>
         (\<not> (show_usage q \<and> training) \<longrightarrow>
            codebook_used q' = codebook_used q \<and> codebook_usage out = 0)"
proof -
  from forward_Inr [OF fw] obtain idx used usage where
    us: "usage_step q training idx = Inr (used, usage)"
    and idx: "min_encoding_indices out = idx" and u: "codebook_usage out = usage"
    and q': "codebook_used q' = used"
    by auto
  show ?thesis
  proof (cases "show_usage q \<and> training")
    case True
    with us obtain used1 where "update_usage q idx = Inr (used1, usage)" "used = Some used1"
      by (cases "update_usage q idx") (auto simp: usage_step_def)
    with True idx u q' show ?thesis by simp
  next
    case False
    with us idx u q' show ?thesis by (auto simp: usage_step_def)
  qed
qed

lemma forward_usage_inv:
  assumes wf: "wf_vq q" and inv: "usage_inv q" and fw: "forward q training z = Inr (out, q')"
  shows "usage_inv q'"
proof (cases "show_usage q \<and> training")
  case False
  with forward_buffer [OF fw] forward_frame [OF fw] inv show ?thesis
    by (simp add: usage_inv_def)
next
  case True
  from inv obtain used where u: "codebook_used q = Some used"
    and lu: "length used = codebook_used_size" and ru: "\<forall>i \<in> set used. i < n_e q"
    by (auto simp: usage_inv_def)
  from True forward_buffer [OF fw] obtain used' usage where
    uu: "update_usage q (min_encoding_indices out) = Inr (used', usage)"
    and q': "codebook_used q' = Some used'" by blast
  note r = update_usage_Inr [OF u lu uu]
  from forward_Inr [OF fw] obtain zd d idx zq where
    n: "nearest q z = Inr (zd, d, idx, zq)" and idx: "min_encoding_indices out = idx" by auto
  have ri: "\<forall>i \<in> set idx. i < n_e q"
    using nearest_index [OF n] wf by (simp add: wf_vq_def)
  have "length used' = codebook_used_size" using r lu by (simp add: idx)
  moreover have "\<forall>i \<in> set used'. i < n_e q"
    using r ru ri by (auto simp: idx dest: in_set_dropD)
  ultimately show ?thesis using q' forward_frame [OF fw] by (simp add: usage_inv_def)
qed

lemma init_inv:
  assumes "VectorQuantizer_init n d b r l2n su u = Inr q0"
  shows "wf_vq q0 \<and> 0 < n_e q0 \<and> n_e q0 = n \<and> e_dim q0 = d \<and> show_usage q0 = su \<and>
         l2_norm q0 = l2n \<and> (su \<longrightarrow> usage_inv q0)"
  using assms
  by (auto simp: VectorQuantizer_init_def Let_def wf_vq_def usage_inv_def split: if_splits)

lemma reachable_inv:
  assumes init: "VectorQuantizer_init n d b r l2n True u = Inr q0" and reach: "reachable q0 q"
  shows "wf_vq q \<and> 0 < n_e q \<and> show_usage q \<and> usage_inv q \<and> weight q = weight q0 \<and>
         n_e q = n \<and> e_dim q = d \<and> l2_norm q = l2n"
  using reach
proof (induction rule: reachable.induct)
  case start
  then show ?case using init_inv [OF init] by simp
next
  case (step q training z out q')
  then show ?case
    using forward_frame [of q training z out q'] forward_wf [of q training z out q']
      forward_usage_inv [of q training z out q']
    by simp
qed


section \<open>The example, evaluated\<close>

lemma upt2: "[0..<2] = [0, 1]" by (simp add: upt_rec)

lemmas ex_simps = nearest_def ex_q_def ex_z_def bchw_to_bhwc_def bhw_rows_def view_rows_def
  rows_of_def embedding_read_def distances_def argmin_dim1_def argmin_row_def sumsq_def dot_def
  Let_def upt2

lemma ex_nearest:
  "nearest ex_q ex_z = Inr ([3 / 4, 1 / 4], [[9 / 16, 1 / 16], [1 / 16, 9 / 16]], [1, 0], [1, 0])"
  by (simp add: ex_simps power2_eq_square)

lemma ex_forward_eval:
  "forward ex_q False ex_z =
     Inr (\<lparr> z_q = \<lparr> shape = [1, 1, 1, 2], data = [1, 0] \<rparr>,
            vq_loss = None, commit_loss = None, entropy_loss = None, codebook_usage = 0,
            perplexity = None, min_encodings = None, min_encoding_indices = [1, 0] \<rparr>, ex_q)"
  by (simp add: forward_eval [OF ex_nearest] bhwc_to_bchw_def) (simp add: ex_z_def upt2)


lemma ex_init: "VectorQuantizer_init 2 1 (1 / 4) 0 False True (\<lambda>i k. real i) = Inr ex_q"
  by (simp add: VectorQuantizer_init_def ex_q_def upt2)

lemma ex_wf: "wf_vq ex_q"
  by (simp add: wf_vq_def ex_q_def)


lemma ex_shape: "shape ex_z = [1, e_dim ex_q, 1, 2]"
  by (simp add: ex_z_def ex_q_def)

lemma ex_forward_train_total: "\<exists>out q'. forward ex_q True ex_z = Inr (out, q')"
proof -
  have "usage_inv ex_q" using init_inv [OF ex_init] by simp
  then show ?thesis
    using forward_total [OF ex_wf _ _ ex_shape, of True]
    by (auto simp: ex_q_def codebook_used_size_def)
qed











section \<open>Evaluation mode (C6)\<close>

text \<open>
  Claim C6. In evaluation mode \<^verbatim>\<open>forward\<close> returns the three losses as
  \<^verbatim>\<open>None\<close> and the usage \<open>0\<close> and leaves the module state, the buffer
  \<^verbatim>\<open>codebook_used\<close> included, as it was; and whenever the call in training
  mode returns, the call in evaluation mode on the same input and state returns
  the same quantized map and the same indices. On a well-formed codebook and a
  four-axis input whose channel count is \<^verbatim>\<open>e_dim\<close> the call in evaluation
  mode returns.
\<close>

theorem eval_mode_frame:
  "(\<forall>out q'. forward q False z = Inr (out, q') \<longrightarrow>
      q' = q \<and> vq_loss out = None \<and> commit_loss out = None \<and> entropy_loss out = None \<and>
      codebook_usage out = 0) \<and>
   (\<forall>out_t q_t. forward q True z = Inr (out_t, q_t) \<longrightarrow>
      (\<exists>out. forward q False z = Inr (out, q) \<and> z_q out = z_q out_t \<and>
             min_encoding_indices out = min_encoding_indices out_t)) \<and>
   (wf_vq q \<and> 0 < n_e q \<and> 0 < e_dim q \<and> (\<exists>B H W. shape z = [B, e_dim q, H, W])
      \<longrightarrow> (\<exists>out. forward q False z = Inr (out, q)))"
proof -
  have c: "\<exists>out. forward q False z = Inr (out, q)"
    if "wf_vq q \<and> 0 < n_e q \<and> 0 < e_dim q \<and> (\<exists>B H W. shape z = [B, e_dim q, H, W])"
  proof -
    from that obtain B H W where "shape z = [B, e_dim q, H, W]" by blast
    with that nearest_total [of q z B H W] obtain zd d idx zq where
      "nearest q z = Inr (zd, d, idx, zq)" by blast
    from forward_eval [OF this] show ?thesis by blast
  qed
  from forward_eval_frame [of q z] forward_train_eval [of q z] c show ?thesis by blast
qed

theorem eval_mode_frame_witness:
  "forward ex_q False ex_z =
     Inr (\<lparr> z_q = \<lparr> shape = [1, 1, 1, 2], data = [1, 0] \<rparr>,
            vq_loss = None, commit_loss = None, entropy_loss = None, codebook_usage = 0,
            perplexity = None, min_encodings = None, min_encoding_indices = [1, 0] \<rparr>, ex_q) \<and>
   (\<exists>out_t q_t. forward ex_q True ex_z = Inr (out_t, q_t) \<and>
      z_q out_t = \<lparr> shape = [1, 1, 1, 2], data = [1, 0] \<rparr> \<and>
      min_encoding_indices out_t = [1, 0])"
proof -
  from ex_forward_train_total obtain out_t q_t where
    t: "forward ex_q True ex_z = Inr (out_t, q_t)" by blast
  from eval_mode_frame [of ex_q ex_z] t obtain out where
    "forward ex_q False ex_z = Inr (out, ex_q)" "z_q out = z_q out_t"
    "min_encoding_indices out = min_encoding_indices out_t"
    by blast
  with ex_forward_eval t show ?thesis by auto
qed

section \<open>Nearest neighbour (C1)\<close>



section \<open>The quantized map holds codebook rows (C2)\<close>








section \<open>Lookup round trip (C3)\<close>






section \<open>The usage buffer (C5)\<close>




section \<open>A batch larger than the buffer (C10)\<close>

text \<open>
  Claim C10. In training mode with \<^verbatim>\<open>show_usage\<close>, a call of
  \<^verbatim>\<open>forward\<close> on an input with more than 65536 positions raises the size
  mismatch of the second buffer assignment (line 514): the indices are computed,
  the update raises, and nothing is truncated. So a call in training mode that
  returns has at most 65536 positions. The same input is accepted in evaluation
  mode.
\<close>

theorem oversized_batch_raises:
  assumes init: "VectorQuantizer_init n d b r l2n True u = Inr q0" and reach: "reachable q0 q"
    and shp: "shape z = [B, e_dim q, H, W]" and ed: "0 < e_dim q"
  shows "(codebook_used_size < B * H * W \<longrightarrow>
            forward q True z = Inl RuntimeError \<and>
            (\<exists>zd d idx zq. nearest q z = Inr (zd, d, idx, zq) \<and> length idx = B * H * W \<and>
                            update_usage q idx = Inl RuntimeError) \<and>
            (\<exists>out. forward q False z = Inr (out, q))) \<and>
         ((\<exists>out q'. forward q True z = Inr (out, q')) \<longrightarrow> B * H * W \<le> codebook_used_size)"
proof -
  note inv = reachable_inv [OF init reach]
  from inv obtain used where u: "codebook_used q = Some used"
    and lu: "length used = codebook_used_size"
    by (auto simp: usage_inv_def)
  from inv nearest_total [OF _ _ ed shp] obtain zd d idx zq where
    n: "nearest q z = Inr (zd, d, idx, zq)" and l: "length idx = B * H * W" by blast
  have big: "forward q True z = Inl RuntimeError \<and>
            (\<exists>zd d idx zq. nearest q z = Inr (zd, d, idx, zq) \<and> length idx = B * H * W \<and>
                            update_usage q idx = Inl RuntimeError) \<and>
            (\<exists>out. forward q False z = Inr (out, q))"
    if over: "codebook_used_size < B * H * W"
  proof -
    have "length used < length idx" "1 < length idx"
      using over l lu by (simp_all add: codebook_used_size_def)
    from update_usage_too_long [OF u this] have uu: "update_usage q idx = Inl RuntimeError" .
    with n inv have "forward q True z = Inl RuntimeError"
      by (simp add: forward_def usage_step_def)
    moreover from forward_eval [OF n] have "\<exists>out. forward q False z = Inr (out, q)" by blast
    ultimately show ?thesis using n l uu by blast
  qed
  have small: "B * H * W \<le> codebook_used_size" if "\<exists>out q'. forward q True z = Inr (out, q')"
  proof (rule ccontr)
    assume "\<not> B * H * W \<le> codebook_used_size"
    with big that show False by auto
  qed
  from big small show ?thesis by blast
qed

theorem oversized_batch_witness:
  "forward ex_q True \<lparr> shape = [1, 1, 1, 65537], data = replicate 65537 0 \<rparr> = Inl RuntimeError \<and>
   (\<exists>out. forward ex_q False \<lparr> shape = [1, 1, 1, 65537], data = replicate 65537 0 \<rparr>
            = Inr (out, ex_q))"
proof -
  have shp: "shape \<lparr> shape = [1, 1, 1, 65537], data = replicate 65537 (0::real) \<rparr>
             = [1, e_dim ex_q, 1, 65537]"
    by (simp add: ex_q_def)
  have ed: "0 < e_dim ex_q" by (simp add: ex_q_def)
  from oversized_batch_raises [OF ex_init reachable.start shp ed]
  show ?thesis by (simp add: codebook_used_size_def)
qed

section \<open>Indices out of range (C4)\<close>

lemma index_rows_out_of_range:
  assumes "\<exists>i \<in> set idx. i < - int (length rows) \<or> int (length rows) \<le> i"
  shows "index_rows rows idx = Inl IndexError"
proof -
  from assms obtain i where "i \<in> set idx" "i < - int (length rows) \<or> int (length rows) \<le> i"
    by blast
  have "\<not> (\<forall>i \<in> set idx. - int (length rows) \<le> i \<and> i < int (length rows))"
  proof
    assume "\<forall>i \<in> set idx. - int (length rows) \<le> i \<and> i < int (length rows)"
    with \<open>i \<in> set idx\<close> have "- int (length rows) \<le> i \<and> i < int (length rows)" by blast
    with \<open>i < - int (length rows) \<or> int (length rows) \<le> i\<close> show False by linarith
  qed
  then show ?thesis by (simp add: index_rows_def Let_def)
qed

lemma index_rows_in_range:
  assumes "\<forall>i \<in> set idx. - int (length rows) \<le> i \<and> i < int (length rows)"
  shows "index_rows rows idx = Inr (map (\<lambda>i. rows ! nat (i mod int (length rows))) idx)"
proof -
  have "nat (if i < 0 then i + int (length rows) else i) = nat (i mod int (length rows))"
    if "i \<in> set idx" for i
  proof (cases "i < 0")
    case True
    with that assms have "0 \<le> i + int (length rows)" "i + int (length rows) < int (length rows)"
      by auto
    then have "(i + int (length rows)) mod int (length rows) = i + int (length rows)"
      by (rule mod_pos_pos_trivial)
    then have "i mod int (length rows) = i + int (length rows)"
      by (simp only: mod_add_self2)
    then show ?thesis using True by simp
  next
    case False
    with that assms show ?thesis by auto
  qed
  then show ?thesis using assms by (auto simp: index_rows_def Let_def)
qed

text \<open>
  Claim C4, as the code has it. The lookup indexes the codebook tensor, so an
  index counts from the end when it is negative: with \<open>n\<close> rows,
  \<^verbatim>\<open>get_codebook_entry\<close> raises the out-of-range error exactly when some
  index lies outside \<open>[-n, n)\<close>; an index \<open>i\<close> with \<open>-n \<le> i < 0\<close> does not
  raise but selects row \<open>n + i\<close>.
\<close>

theorem lookup_index_range:
  assumes wf: "wf_vq q"
  shows "((\<exists>i \<in> set (data indices). i < - int (n_e q) \<or> int (n_e q) \<le> i)
            \<longrightarrow> get_codebook_entry q indices shp channel_first = Inl IndexError) \<and>
         ((\<forall>i \<in> set (data indices). - int (n_e q) \<le> i \<and> i < int (n_e q))
            \<longrightarrow> get_codebook_entry q indices None channel_first
                = Inr \<lparr> shape = shape indices @ [e_dim q],
                        data = concat (map (\<lambda>i. embedding_read q ! nat (i mod int (n_e q)))
                                           (data indices)) \<rparr>)"
proof -
  have n: "length (embedding_read q) = n_e q" using wf by (simp add: wf_vq_def)
  show ?thesis
    using index_rows_out_of_range [of "data indices" "embedding_read q"]
      index_rows_in_range [of "data indices" "embedding_read q"]
    by (auto simp: get_codebook_entry_def n simp del: length_embedding_read)
qed

theorem lookup_index_range_witness:
  "get_codebook_entry ex_q \<lparr> shape = [1], data = [2] \<rparr> None True = Inl IndexError \<and>
   get_codebook_entry ex_q \<lparr> shape = [1], data = [- 3] \<rparr> (Some [1, 1, 1, 1]) True = Inl IndexError \<and>
   get_codebook_entry ex_q \<lparr> shape = [2], data = [- 1, 0] \<rparr> None True
     = Inr \<lparr> shape = [2, 1], data = [1, 0] \<rparr>"
proof -
  note a = lookup_index_range [OF ex_wf, of "\<lparr> shape = [1], data = [2] \<rparr>" None True]
  note b = lookup_index_range [OF ex_wf, of "\<lparr> shape = [1], data = [- 3] \<rparr>" "Some [1, 1, 1, 1]" True]
  note c = lookup_index_range [OF ex_wf, of "\<lparr> shape = [2], data = [- 1, 0] \<rparr>" None True]
  have n: "n_e ex_q = 2" "e_dim ex_q = 1" by (simp_all add: ex_q_def)
  have e: "embedding_read ex_q = [[0], [1]]" by (simp add: embedding_read_def ex_q_def)
  from a b c show ?thesis by (simp add: n e)
qed

text \<open>
  The claim as stated fails: the indices \<open>-1\<close> and \<open>-2\<close> are outside
  \<open>[0, 2)\<close>, and the lookup in a codebook of two rows returns rows \<open>1\<close> and
  \<open>0\<close>.
\<close>

theorem lookup_negative_index_counterexample:
  "get_codebook_entry ex_q \<lparr> shape = [2], data = [- 1, - 2] \<rparr> (Some [1, 1, 1, 2]) True
     = Inr \<lparr> shape = [1, 1, 1, 2], data = [1, 0] \<rparr>"
  by (simp add: get_codebook_entry_def index_rows_def embedding_read_def ex_q_def bhwc_to_bchw_def
      upt2)

section \<open>Unit norm (C7)\<close>




section \<open>The disentanglement loss (C8)\<close>








end
